theory Spec2Isabelle
  imports Main
begin

section \<open>Computations of the host language\<close>

text \<open>
  The code under verification is \<^verbatim>\<open>src/lib/application/statestored-aggregate.ts\<close>.
  Its collaborators (the decider, the saga, the state repository) are JavaScript
  functions: a call may change the world outside the aggregate (a repository writes its
  store), may throw or reject with a failure value, and may not return at all. A
  computation is therefore a function from the world before the call to
  \<^item> \<open>None\<close>: the call does not return;
  \<^item> \<open>Some (Inl x, w')\<close>: the call throws (or its promise rejects with) \<open>x\<close>, leaving
    the world \<open>w'\<close>;
  \<^item> \<open>Some (Inr a, w')\<close>: the call returns (or its promise resolves to) \<open>a\<close>.

  \<open>'x\<close> is the type of failure values, \<open>'w\<close> the type of the world. An \<^verbatim>\<open>await\<close>
  and a sequence of statements are both \<open>comp_bind\<close>: the rest runs only when the first
  part has returned, and a failure or a divergence of the first part is the outcome of
  the whole.
\<close>

type_synonym ('a, 'x, 'w) comp = "'w \<Rightarrow> (('x + 'a) \<times> 'w) option"

definition comp_return :: "'a \<Rightarrow> ('a, 'x, 'w) comp" where
  "comp_return a = (\<lambda>w. Some (Inr a, w))"

definition comp_throw :: "'x \<Rightarrow> ('a, 'x, 'w) comp" where
  "comp_throw x = (\<lambda>w. Some (Inl x, w))"

definition comp_bind ::
  "('a, 'x, 'w) comp \<Rightarrow> ('a \<Rightarrow> ('b, 'x, 'w) comp) \<Rightarrow> ('b, 'x, 'w) comp" where
  "comp_bind m k = (\<lambda>w. case m w of
       None \<Rightarrow> None
     | Some (Inl x, w') \<Rightarrow> Some (Inl x, w')
     | Some (Inr a, w') \<Rightarrow> k a w')"

subsection \<open>Calling a function value\<close>

text \<open>
  A function of the host language that is stored in a field of an object can be called
  in two ways. A method call \<^verbatim>\<open>obj.f(a, b)\<close> runs the function with \<^verbatim>\<open>this\<close> bound
  to the object. When the function value \<^verbatim>\<open>obj.f\<close> is handed on and called later,
  \<^verbatim>\<open>this\<close> is \<^verbatim>\<open>undefined\<close> in that call (the code is a module, hence strict). The
  caller also chooses the number of arguments: a function declared with two parameters
  may still read a third and a fourth (a default parameter, a rest parameter). A
  function of two declared parameters that may be called in both ways is therefore
  modelled with two more arguments: the receiver, and the further arguments of the
  call, which are \<open>None\<close> for a call with two arguments and \<open>Some (k, arr)\<close> when an
  index and an array follow.
\<close>

datatype receiver = This_undefined | This_object

type_synonym ('b, 'a, 'x, 'w) callback =
  "receiver \<Rightarrow> 'b \<Rightarrow> 'a \<Rightarrow> (nat \<times> 'a list) option \<Rightarrow> ('b, 'x, 'w) comp"

subsection \<open>The array methods the code calls\<close>

text \<open>
  \<^verbatim>\<open>Array.prototype.reduce(callbackfn, initialValue)\<close>: the index \<open>k\<close> runs from \<open>0\<close>
  to the length of the array; the callback is called without a receiver and with four
  arguments: the accumulator, the element, the index and the array. With an initial
  value an empty array yields that value and the callback is not called.
\<close>

function reduce_from ::
  "('b, 'a, 'x, 'w) callback \<Rightarrow> 'a list \<Rightarrow> nat \<Rightarrow> 'b \<Rightarrow> ('b, 'x, 'w) comp" where
  "reduce_from callbackfn arr k accumulator =
     (if k < length arr
      then comp_bind (callbackfn This_undefined accumulator (arr ! k) (Some (k, arr)))
             (\<lambda>accumulator'. reduce_from callbackfn arr (Suc k) accumulator')
      else comp_return accumulator)"
  by pat_completeness auto
termination
  by (relation "measure (\<lambda>(callbackfn, arr, k, accumulator). length arr - k)") auto

definition reduce ::
  "('b, 'a, 'x, 'w) callback \<Rightarrow> 'a list \<Rightarrow> 'b \<Rightarrow> ('b, 'x, 'w) comp" where
  "reduce callbackfn arr initialValue = reduce_from callbackfn arr 0 initialValue"

text \<open>
  \<^verbatim>\<open>Array.prototype.flatMap(mapperFunction)\<close>: the mapper is called on every element
  in index order, with the element, the index and the array; the elements of the array
  it returns are appended to the target (flattening by one level). The code passes an
  arrow function to \<^verbatim>\<open>flatMap\<close> and to \<^verbatim>\<open>forEach\<close>, which takes the element alone
  and has no receiver of its own.
\<close>

function flatMap_from ::
  "('a \<Rightarrow> nat \<Rightarrow> 'a list \<Rightarrow> ('b list, 'x, 'w) comp) \<Rightarrow> 'a list \<Rightarrow> nat \<Rightarrow> 'b list
     \<Rightarrow> ('b list, 'x, 'w) comp" where
  "flatMap_from mapperFunction arr k target =
     (if k < length arr
      then comp_bind (mapperFunction (arr ! k) k arr)
             (\<lambda>element. flatMap_from mapperFunction arr (Suc k) (target @ element))
      else comp_return target)"
  by pat_completeness auto
termination
  by (relation "measure (\<lambda>(mapperFunction, arr, k, target). length arr - k)") auto

definition flatMap ::
  "('a \<Rightarrow> nat \<Rightarrow> 'a list \<Rightarrow> ('b list, 'x, 'w) comp) \<Rightarrow> 'a list \<Rightarrow> ('b list, 'x, 'w) comp" where
  "flatMap mapperFunction arr = flatMap_from mapperFunction arr 0 []"

text \<open>
  \<^verbatim>\<open>Array.prototype.forEach(callbackfn)\<close>: the callback is called on every element in
  index order. \<^verbatim>\<open>forEach\<close> itself returns nothing; the callback of the code assigns
  to a variable of the enclosing function, which the model passes through the loop as
  \<open>local\<close> and returns at the end.
\<close>

function forEach_from ::
  "('a \<Rightarrow> nat \<Rightarrow> 'a list \<Rightarrow> 'l \<Rightarrow> ('l, 'x, 'w) comp) \<Rightarrow> 'a list \<Rightarrow> nat \<Rightarrow> 'l
     \<Rightarrow> ('l, 'x, 'w) comp" where
  "forEach_from callbackfn arr k local =
     (if k < length arr
      then comp_bind (callbackfn (arr ! k) k arr local)
             (\<lambda>local'. forEach_from callbackfn arr (Suc k) local')
      else comp_return local)"
  by pat_completeness auto
termination
  by (relation "measure (\<lambda>(callbackfn, arr, k, local). length arr - k)") auto

definition forEach ::
  "('a \<Rightarrow> nat \<Rightarrow> 'a list \<Rightarrow> 'l \<Rightarrow> ('l, 'x, 'w) comp) \<Rightarrow> 'a list \<Rightarrow> 'l \<Rightarrow> ('l, 'x, 'w) comp" where
  "forEach callbackfn arr local = forEach_from callbackfn arr 0 local"

section \<open>The collaborators\<close>

text \<open>
  \<^verbatim>\<open>IDecider<C, S, E>\<close> and \<^verbatim>\<open>ISaga<E, C>\<close> are imported by the file; the two
  repository interfaces are declared at its end. \<^verbatim>\<open>S | null\<close> and \<^verbatim>\<open>V | null\<close> are
  option types, \<open>None\<close> being \<^verbatim>\<open>null\<close>. The code calls \<^verbatim>\<open>decide\<close>, \<^verbatim>\<open>react\<close>,
  \<^verbatim>\<open>fetchState\<close> and \<^verbatim>\<open>save\<close> only as methods of their objects and with the
  declared arguments, so these fields are functions of those arguments. It calls
  \<^verbatim>\<open>evolve\<close> as a method with two arguments in one place (line 106) and hands the
  function value to \<^verbatim>\<open>reduce\<close> in two others (lines 112 and 140), so this field is
  a callback: \<open>evolve d This_object s e None\<close> is the method call
  \<^verbatim>\<open>d.evolve(s, e)\<close>.
\<close>

record ('c, 's, 'e, 'x, 'w) IDecider =
  decide :: "'c \<Rightarrow> 's \<Rightarrow> ('e list, 'x, 'w) comp"
  evolve :: "('s, 'e, 'x, 'w) callback"
  initialState :: "'s"

record ('c, 'e, 'x, 'w) ISaga =
  react :: "'e \<Rightarrow> ('c list, 'x, 'w) comp"

record ('c, 's, 'x, 'w) StateRepository =
  fetchState :: "'c \<Rightarrow> ('s option, 'x, 'w) comp"
  save :: "'s \<Rightarrow> ('s, 'x, 'w) comp"

record ('c, 's, 'v, 'x, 'w) StateLockingRepository =
  fetchState_locking :: "'c \<Rightarrow> ('s option \<times> 'v option, 'x, 'w) comp"
  save_locking :: "'s \<Rightarrow> 'v option \<Rightarrow> ('s \<times> 'v, 'x, 'w) comp"

section \<open>The computations\<close>

text \<open>
  The classes are records of their fields, a subclass extending the record of its
  superclass; a method takes the object as \<open>this\<close>. The constructor of
  \<^verbatim>\<open>StateComputation\<close> stores the decider and copies its initial state into the
  field \<^verbatim>\<open>initialState\<close> of the object (here \<open>this_initialState\<close>).
\<close>

record ('c, 's, 'e, 'x, 'w) StateComputation =
  decider :: "('c, 's, 'e, 'x, 'w) IDecider"
  this_initialState :: "'s"

record ('c, 's, 'e, 'x, 'w) StateOrchestratingComputation =
  "('c, 's, 'e, 'x, 'w) StateComputation" +
  saga :: "('c, 'e, 'x, 'w) ISaga"

definition StateComputation_decide ::
  "('c, 's, 'e, 'x, 'w, 'z) StateComputation_scheme \<Rightarrow> 'c \<Rightarrow> 's \<Rightarrow> ('e list, 'x, 'w) comp" where
  "StateComputation_decide this c s = decide (decider this) c s"

definition StateComputation_evolve ::
  "('c, 's, 'e, 'x, 'w, 'z) StateComputation_scheme \<Rightarrow> 's \<Rightarrow> 'e \<Rightarrow> ('s, 'x, 'w) comp" where
  "StateComputation_evolve this s e = evolve (decider this) This_object s e None"

definition StateOrchestratingComputation_react ::
  "('c, 's, 'e, 'x, 'w, 'z) StateOrchestratingComputation_scheme \<Rightarrow> 'e
     \<Rightarrow> ('c list, 'x, 'w) comp" where
  "StateOrchestratingComputation_react this ar = react (saga this) ar"

text \<open>
  An object of these classes is itself a decision unit (\<^verbatim>\<open>implements IDecider\<close>):
  its \<^verbatim>\<open>decide\<close> and \<^verbatim>\<open>initialState\<close> are the ones above, and its \<^verbatim>\<open>evolve\<close>, as
  a function value, reads \<^verbatim>\<open>this.decider\<close>: called as a method it is
  \<open>StateComputation_evolve\<close>; called without a receiver it throws the \<^verbatim>\<open>TypeError\<close>
  of reading a property of \<^verbatim>\<open>undefined\<close>, which is the failure value \<open>typeError\<close>
  here. It declares two parameters and reads no further argument.
\<close>

definition StateComputation_as_IDecider ::
  "'x \<Rightarrow> ('c, 's, 'e, 'x, 'w, 'z) StateComputation_scheme \<Rightarrow> ('c, 's, 'e, 'x, 'w) IDecider" where
  "StateComputation_as_IDecider typeError this =
     \<lparr>decide = (\<lambda>c s. StateComputation_decide this c s),
      evolve = (\<lambda>receiver s e further.
        case receiver of
          This_undefined \<Rightarrow> comp_throw typeError
        | This_object \<Rightarrow> StateComputation_evolve this s e),
      initialState = this_initialState this\<rparr>"

text \<open>
  \<^verbatim>\<open>StateComputation.computeNewState\<close>. The code hands the function value
  \<^verbatim>\<open>this.decider.evolve\<close> to \<^verbatim>\<open>reduce\<close>, and so does the model.
\<close>

definition StateComputation_computeNewState ::
  "('c, 's, 'e, 'x, 'w, 'z) StateComputation_scheme \<Rightarrow> 's \<Rightarrow> 'c \<Rightarrow> ('s, 'x, 'w) comp" where
  "StateComputation_computeNewState this state command =
     comp_bind (decide (decider this) command state) (\<lambda>events.
       reduce (evolve (decider this)) events state)"

text \<open>
  \<^verbatim>\<open>StateOrchestratingComputation.computeNewState\<close> calls itself from the callback of
  \<^verbatim>\<open>forEach\<close>, and nothing in the code bounds the depth of these calls. The first
  argument of the model is the number of nested calls still allowed (fuel): without
  fuel the outcome is \<open>None\<close>, as for a call that does not return.
\<close>

primrec StateOrchestratingComputation_computeNewState ::
  "nat \<Rightarrow> ('c, 's, 'e, 'x, 'w, 'z) StateOrchestratingComputation_scheme \<Rightarrow> 's \<Rightarrow> 'c
     \<Rightarrow> ('s, 'x, 'w) comp" where
  "StateOrchestratingComputation_computeNewState 0 this state command = (\<lambda>w. None)"
| "StateOrchestratingComputation_computeNewState (Suc fuel) this state command =
     comp_bind (decide (decider this) command state) (\<lambda>events.
     comp_bind (reduce (evolve (decider this)) events state) (\<lambda>newState.
     comp_bind (flatMap (\<lambda>it k arr. react (saga this) it) events) (\<lambda>commands.
       forEach (\<lambda>c k arr newState.
                  StateOrchestratingComputation_computeNewState fuel this newState c)
         commands newState)))"

section \<open>The aggregates\<close>

record ('c, 's, 'e, 'x, 'w) StateStoredAggregate =
  "('c, 's, 'e, 'x, 'w) StateComputation" +
  stateRepository :: "('c, 's, 'x, 'w) StateRepository"

record ('c, 's, 'e, 'v, 'x, 'w) StateStoredLockingAggregate =
  "('c, 's, 'e, 'x, 'w) StateComputation" +
  stateRepository_L :: "('c, 's, 'v, 'x, 'w) StateLockingRepository"

record ('c, 's, 'e, 'x, 'w) StateStoredOrchestratingAggregate =
  "('c, 's, 'e, 'x, 'w) StateOrchestratingComputation" +
  stateRepository_O :: "('c, 's, 'x, 'w) StateRepository"

record ('c, 's, 'e, 'v, 'x, 'w) StateStoredOrchestratingLockingAggregate =
  "('c, 's, 'e, 'x, 'w) StateOrchestratingComputation" +
  stateRepository_OL :: "('c, 's, 'v, 'x, 'w) StateLockingRepository"

text \<open>The four constructors.\<close>

definition new_StateStoredAggregate ::
  "('c, 's, 'e, 'x, 'w) IDecider \<Rightarrow> ('c, 's, 'x, 'w) StateRepository
     \<Rightarrow> ('c, 's, 'e, 'x, 'w) StateStoredAggregate" where
  "new_StateStoredAggregate d r =
     \<lparr>decider = d, this_initialState = initialState d, stateRepository = r\<rparr>"

definition new_StateStoredLockingAggregate ::
  "('c, 's, 'e, 'x, 'w) IDecider \<Rightarrow> ('c, 's, 'v, 'x, 'w) StateLockingRepository
     \<Rightarrow> ('c, 's, 'e, 'v, 'x, 'w) StateStoredLockingAggregate" where
  "new_StateStoredLockingAggregate d r =
     \<lparr>decider = d, this_initialState = initialState d, stateRepository_L = r\<rparr>"

definition new_StateStoredOrchestratingAggregate ::
  "('c, 's, 'e, 'x, 'w) IDecider \<Rightarrow> ('c, 's, 'x, 'w) StateRepository
     \<Rightarrow> ('c, 'e, 'x, 'w) ISaga \<Rightarrow> ('c, 's, 'e, 'x, 'w) StateStoredOrchestratingAggregate" where
  "new_StateStoredOrchestratingAggregate d r g =
     \<lparr>decider = d, this_initialState = initialState d, saga = g, stateRepository_O = r\<rparr>"

definition new_StateStoredOrchestratingLockingAggregate ::
  "('c, 's, 'e, 'x, 'w) IDecider \<Rightarrow> ('c, 's, 'v, 'x, 'w) StateLockingRepository
     \<Rightarrow> ('c, 'e, 'x, 'w) ISaga
     \<Rightarrow> ('c, 's, 'e, 'v, 'x, 'w) StateStoredOrchestratingLockingAggregate" where
  "new_StateStoredOrchestratingLockingAggregate d r g =
     \<lparr>decider = d, this_initialState = initialState d, saga = g, stateRepository_OL = r\<rparr>"

text \<open>
  The four \<^verbatim>\<open>handle\<close> methods. Each chooses the state to start from with the
  conditional expression \<^verbatim>\<open>currentState ? currentState : this.decider.initialState\<close>,
  whose test converts \<^verbatim>\<open>currentState\<close> to a boolean: \<^verbatim>\<open>null\<close> converts to
  \<^verbatim>\<open>false\<close>, and a state converts as the language says for its runtime value. The
  type \<^verbatim>\<open>S\<close> is a parameter of the classes, so the conversion of its values is a
  parameter of the model, \<open>ToBoolean\<close>; its instances for numbers, strings and booleans
  follow below. The orchestrating variants take the fuel of their computation.
\<close>

definition StateStoredAggregate_handle ::
  "('s \<Rightarrow> bool) \<Rightarrow> ('c, 's, 'e, 'x, 'w) StateStoredAggregate \<Rightarrow> 'c \<Rightarrow> ('s, 'x, 'w) comp" where
  "StateStoredAggregate_handle ToBoolean this command =
     comp_bind (fetchState (stateRepository this) command) (\<lambda>currentState.
     comp_bind (StateComputation_computeNewState this
                  (case currentState of
                     None \<Rightarrow> initialState (decider this)
                   | Some s \<Rightarrow> if ToBoolean s then s else initialState (decider this))
                  command) (\<lambda>newState.
       save (stateRepository this) newState))"

definition StateStoredLockingAggregate_handle ::
  "('s \<Rightarrow> bool) \<Rightarrow> ('c, 's, 'e, 'v, 'x, 'w) StateStoredLockingAggregate \<Rightarrow> 'c
     \<Rightarrow> ('s \<times> 'v, 'x, 'w) comp" where
  "StateStoredLockingAggregate_handle ToBoolean this command =
     comp_bind (fetchState_locking (stateRepository_L this) command) (\<lambda>(currentState, version).
     comp_bind (StateComputation_computeNewState this
                  (case currentState of
                     None \<Rightarrow> initialState (decider this)
                   | Some s \<Rightarrow> if ToBoolean s then s else initialState (decider this))
                  command) (\<lambda>newState.
       save_locking (stateRepository_L this) newState version))"

definition StateStoredOrchestratingAggregate_handle ::
  "nat \<Rightarrow> ('s \<Rightarrow> bool) \<Rightarrow> ('c, 's, 'e, 'x, 'w) StateStoredOrchestratingAggregate \<Rightarrow> 'c
     \<Rightarrow> ('s, 'x, 'w) comp" where
  "StateStoredOrchestratingAggregate_handle fuel ToBoolean this command =
     comp_bind (fetchState (stateRepository_O this) command) (\<lambda>currentState.
     comp_bind (StateOrchestratingComputation_computeNewState fuel this
                  (case currentState of
                     None \<Rightarrow> initialState (decider this)
                   | Some s \<Rightarrow> if ToBoolean s then s else initialState (decider this))
                  command) (\<lambda>newState.
       save (stateRepository_O this) newState))"

definition StateStoredOrchestratingLockingAggregate_handle ::
  "nat \<Rightarrow> ('s \<Rightarrow> bool) \<Rightarrow> ('c, 's, 'e, 'v, 'x, 'w) StateStoredOrchestratingLockingAggregate
     \<Rightarrow> 'c \<Rightarrow> ('s \<times> 'v, 'x, 'w) comp" where
  "StateStoredOrchestratingLockingAggregate_handle fuel ToBoolean this command =
     comp_bind (fetchState_locking (stateRepository_OL this) command)
       (\<lambda>(currentState, version).
     comp_bind (StateOrchestratingComputation_computeNewState fuel this
                  (case currentState of
                     None \<Rightarrow> initialState (decider this)
                   | Some s \<Rightarrow> if ToBoolean s then s else initialState (decider this))
                  command) (\<lambda>newState.
       save_locking (stateRepository_OL this) newState version))"

text \<open>The conversion to a boolean of a number, of a string and of a boolean.\<close>

definition ToBoolean_number :: "int \<Rightarrow> bool" where
  "ToBoolean_number n = (n \<noteq> 0)"

definition ToBoolean_string :: "string \<Rightarrow> bool" where
  "ToBoolean_string s = (s \<noteq> [])"

definition ToBoolean_boolean :: "bool \<Rightarrow> bool" where
  "ToBoolean_boolean b = b"

section \<open>Reference definitions\<close>

text \<open>
  The left-to-right fold of a step function over a list, the list of the results of a
  function on every element in order, and the nested loop over the follow-up commands
  of every event. These are the notions the specification uses to describe the
  computations; they are recursive on the list, where the array methods above count an
  index.
\<close>

fun fold_left :: "('b \<Rightarrow> 'a \<Rightarrow> ('b, 'x, 'w) comp) \<Rightarrow> 'a list \<Rightarrow> 'b \<Rightarrow> ('b, 'x, 'w) comp" where
  "fold_left f [] acc = comp_return acc"
| "fold_left f (x # xs) acc = comp_bind (f acc x) (\<lambda>acc'. fold_left f xs acc')"

fun collect :: "('a \<Rightarrow> ('b, 'x, 'w) comp) \<Rightarrow> 'a list \<Rightarrow> ('b list, 'x, 'w) comp" where
  "collect f [] = comp_return []"
| "collect f (x # xs) = comp_bind (f x) (\<lambda>y. comp_bind (collect f xs) (\<lambda>ys. comp_return (y # ys)))"

definition cascade ::
  "('s \<Rightarrow> 'c \<Rightarrow> ('s, 'x, 'w) comp) \<Rightarrow> 'c list list \<Rightarrow> 's \<Rightarrow> ('s, 'x, 'w) comp" where
  "cascade step followUps newState =
     fold_left (\<lambda>st commands. fold_left step commands st) followUps newState"

text \<open>
  A decider and a saga whose functions are pure and total, as the specification asks of
  them: they return their result and leave the world as it is, and \<open>evolve\<close> reads
  neither its receiver nor any further argument.
\<close>

definition pure_decider ::
  "('c \<Rightarrow> 's \<Rightarrow> 'e list) \<Rightarrow> ('s \<Rightarrow> 'e \<Rightarrow> 's) \<Rightarrow> 's \<Rightarrow> ('c, 's, 'e, 'x, 'w) IDecider" where
  "pure_decider dec ev init =
     \<lparr>decide = (\<lambda>c s. comp_return (dec c s)),
      evolve = (\<lambda>receiver s e further. comp_return (ev s e)),
      initialState = init\<rparr>"

definition pure_saga :: "('e \<Rightarrow> 'c list) \<Rightarrow> ('c, 'e, 'x, 'w) ISaga" where
  "pure_saga rt = \<lparr>react = (\<lambda>e. comp_return (rt e))\<rparr>"

section \<open>Observing the calls\<close>

text \<open>
  To state which collaborator is called, in which order and with which arguments, a
  collaborator is wrapped in a recorder, as a test double would be: the world is
  extended by a log, and every call appends its name, its arguments and the failure
  it threw (\<open>None\<close> when it returned). The wrapped collaborator behaves as the original
  one on the original world.
\<close>

datatype ('c, 's, 'e, 'v) call =
    Decide 'c 's
  | Evolve 's 'e
  | React 'e
  | FetchState 'c
  | Save 's
  | SaveVersion 's "'v option"

type_synonym ('c, 's, 'e, 'v, 'x) trace = "(('c, 's, 'e, 'v) call \<times> 'x option) list"

definition thrown :: "'x + 'a \<Rightarrow> 'x option" where
  "thrown r = (case r of Inl x \<Rightarrow> Some x | Inr a \<Rightarrow> None)"

definition spy ::
  "('c, 's, 'e, 'v) call \<Rightarrow> ('a, 'x, 'w) comp
     \<Rightarrow> ('a, 'x, 'w \<times> ('c, 's, 'e, 'v, 'x) trace) comp" where
  "spy k m = (\<lambda>(w, log). case m w of
       None \<Rightarrow> None
     | Some (r, w') \<Rightarrow> Some (r, (w', log @ [(k, thrown r)])))"

definition spy_decider ::
  "('c, 's, 'e, 'x, 'w) IDecider
     \<Rightarrow> ('c, 's, 'e, 'x, 'w \<times> ('c, 's, 'e, 'v, 'x) trace) IDecider" where
  "spy_decider d =
     \<lparr>decide = (\<lambda>c s. spy (Decide c s) (decide d c s)),
      evolve = (\<lambda>receiver s e further. spy (Evolve s e) (evolve d receiver s e further)),
      initialState = initialState d\<rparr>"

definition spy_saga ::
  "('c, 'e, 'x, 'w) ISaga \<Rightarrow> ('c, 'e, 'x, 'w \<times> ('c, 's, 'e, 'v, 'x) trace) ISaga" where
  "spy_saga g = \<lparr>react = (\<lambda>e. spy (React e) (react g e))\<rparr>"

definition spy_repository ::
  "('c, 's, 'x, 'w) StateRepository
     \<Rightarrow> ('c, 's, 'x, 'w \<times> ('c, 's, 'e, 'v, 'x) trace) StateRepository" where
  "spy_repository r =
     \<lparr>fetchState = (\<lambda>c. spy (FetchState c) (fetchState r c)),
      save = (\<lambda>s. spy (Save s) (save r s))\<rparr>"

definition spy_locking_repository ::
  "('c, 's, 'v, 'x, 'w) StateLockingRepository
     \<Rightarrow> ('c, 's, 'v, 'x, 'w \<times> ('c, 's, 'e, 'v, 'x) trace) StateLockingRepository" where
  "spy_locking_repository r =
     \<lparr>fetchState_locking = (\<lambda>c. spy (FetchState c) (fetchState_locking r c)),
      save_locking = (\<lambda>s v. spy (SaveVersion s v) (save_locking r s v))\<rparr>"







section \<open>Example collaborators\<close>

text \<open>
  The decision unit of the specification's concrete scenario (\<open>decide(n, s) = [n]\<close>,
  \<open>evolve(s, e) = s + e\<close>) with a chosen initial state, and a variant whose \<open>decide\<close>
  throws on a negative command.
\<close>

datatype failure = ConcurrencyConflict | DomainFailure | StoreUnavailable | TypeError

definition adder :: "int \<Rightarrow> (int, int, int, 'x, 'w) IDecider" where
  "adder init = pure_decider (\<lambda>n s. [n]) (\<lambda>s e. s + e) init"


text \<open>
  A decision unit whose \<open>evolve\<close> declares a third parameter with a default,
  \<^verbatim>\<open>evolve(s, e, k = 0) { return s + e + k }\<close>, and whose \<open>decide\<close> returns the
  command three times. Its type is still that of \<^verbatim>\<open>IDecider<number, number, number>\<close>.
\<close>

definition indexed_adder :: "(int, int, int, 'x, 'w) IDecider" where
  "indexed_adder =
     \<lparr>decide = (\<lambda>n s. comp_return [n, n, n]),
      evolve = (\<lambda>receiver s e further.
        comp_return (s + e + (case further of None \<Rightarrow> 0 | Some (k, arr) \<Rightarrow> int k))),
      initialState = 0\<rparr>"

text \<open>
  The plain computation over the concrete scenario's decision unit, and the same
  object used as the decision unit of a second computation, as the classes allow.
\<close>

definition inner_computation :: "(int, int, int, failure, 'w) StateComputation" where
  "inner_computation = \<lparr>decider = adder 0, this_initialState = 0\<rparr>"

definition outer_computation :: "(int, int, int, failure, 'w) StateComputation" where
  "outer_computation =
     \<lparr>decider = StateComputation_as_IDecider TypeError inner_computation,
      this_initialState = 0\<rparr>"

definition outer_orchestrating ::
  "(int, int, int, failure, 'w) StateOrchestratingComputation" where
  "outer_orchestrating =
     \<lparr>decider = StateComputation_as_IDecider TypeError inner_computation,
      this_initialState = 0, saga = pure_saga (\<lambda>e. [])\<rparr>"

text \<open>
  A repository that keeps one state in a variable, as the repository of
  \<^verbatim>\<open>materialized-view.spec.ts\<close> does (\<^verbatim>\<open>let storage: number | null = null\<close>;
  \<^verbatim>\<open>fetchState\<close> returns it, \<^verbatim>\<open>save\<close> assigns it and returns its argument). The
  world is the variable. The locking repository keeps a version number beside the
  state and follows the contract the specification gives for \<^verbatim>\<open>save\<close>: it rejects a
  version that is not the stored one, and otherwise stores the state under a new
  version.
\<close>

definition in_memory_repository :: "('c, 's, 'x, 's option) StateRepository" where
  "in_memory_repository =
     \<lparr>fetchState = (\<lambda>c storage. Some (Inr storage, storage)),
      save = (\<lambda>s storage. Some (Inr s, Some s))\<rparr>"

definition in_memory_locking_repository ::
  "('c, 's, nat, failure, ('s \<times> nat) option) StateLockingRepository" where
  "in_memory_locking_repository =
     \<lparr>fetchState_locking = (\<lambda>c storage.
        Some (Inr (map_option fst storage, map_option snd storage), storage)),
      save_locking = (\<lambda>s v storage.
        if v = map_option snd storage
        then (let v' = (case v of None \<Rightarrow> 0 | Some n \<Rightarrow> Suc n)
              in Some (Inr (s, v'), Some (s, v')))
        else Some (Inl ConcurrencyConflict, storage))\<rparr>"

text \<open>
  The counter of the specification's cascade scenario. \<^verbatim>\<open>react\<close> receives the event
  alone, so the event \<open>Incremented\<close> carries the count that results from it, which is
  what the routing unit compares with 3.
\<close>



datatype counter_event = Incremented int

definition counter_decide :: "string \<Rightarrow> int \<Rightarrow> counter_event list" where
  "counter_decide c s = (if c = ''inc'' then [Incremented (s + 1)] else [])"

fun counter_evolve :: "int \<Rightarrow> counter_event \<Rightarrow> int" where
  "counter_evolve s (Incremented n) = s + 1"

fun counter_react :: "counter_event \<Rightarrow> string list" where
  "counter_react (Incremented n) = (if n < 3 then [''inc''] else [])"

definition counter_decider :: "(string, int, counter_event, 'x, 'w) IDecider" where
  "counter_decider = pure_decider counter_decide counter_evolve 0"

definition counter_saga :: "(string, counter_event, 'x, 'w) ISaga" where
  "counter_saga = pure_saga counter_react"

definition counter :: "(string, int, counter_event, 'x, 'w) StateOrchestratingComputation" where
  "counter = \<lparr>decider = counter_decider, this_initialState = 0, saga = counter_saga\<rparr>"

definition counter_spied ::
  "(string, int, counter_event, 'x, 'w \<times> (string, int, counter_event, 'v, 'x) trace)
     StateOrchestratingComputation" where
  "counter_spied =
     \<lparr>decider = spy_decider counter_decider, this_initialState = 0,
      saga = spy_saga counter_saga\<rparr>"

section \<open>Properties of the computations\<close>

subsection \<open>Sequencing\<close>

declare reduce_from.simps [simp del] flatMap_from.simps [simp del] forEach_from.simps [simp del]

lemma comp_bind_return [simp]: "comp_bind (comp_return a) k = k a"
  by (simp add: comp_bind_def comp_return_def)

lemma comp_bind_return_right [simp]: "comp_bind m comp_return = m"
  by (auto simp: comp_bind_def comp_return_def fun_eq_iff split: option.splits sum.splits)

lemma comp_bind_assoc:
  "comp_bind (comp_bind m f) g = comp_bind m (\<lambda>a. comp_bind (f a) g)"
  by (auto simp: comp_bind_def fun_eq_iff split: option.splits sum.splits)

lemma comp_bind_SomeE:
  assumes "comp_bind m k w = Some r"
  obtains (throws) x w' where "m w = Some (Inl x, w')" and "r = (Inl x, w')"
        | (returns) a w' where "m w = Some (Inr a, w')" and "k a w' = Some r"
  using assms by (auto simp: comp_bind_def split: option.splits sum.splits)

lemma comp_bind_mono:
  assumes "\<And>a w r. f a w = Some r \<Longrightarrow> g a w = Some r"
  shows "comp_bind m f w = Some r \<Longrightarrow> comp_bind m g w = Some r"
proof (erule comp_bind_SomeE)
  fix x w' assume "m w = Some (Inl x, w')" and "r = (Inl x, w')"
  then show ?thesis by (simp add: comp_bind_def)
next
  fix a w' assume "m w = Some (Inr a, w')" and "f a w' = Some r"
  then show ?thesis using assms by (simp add: comp_bind_def)
qed

subsection \<open>The array methods are folds\<close>

text \<open>
  \<^verbatim>\<open>reduce\<close> is the left fold, over the elements paired with their indices, of the
  callback called without a receiver and with the index and the array. For a callback
  that reads neither its receiver nor the further arguments it is the left fold of the
  callback over the elements.
\<close>

lemma reduce_from_enumerate:
  "reduce_from f arr k acc =
     fold_left (\<lambda>acc' (i, e). f This_undefined acc' e (Some (i, arr)))
       (drop k (enumerate 0 arr)) acc"
proof (induction "length arr - k" arbitrary: k acc)
  case 0
  then show ?case by (subst reduce_from.simps) simp
next
  case (Suc n)
  then have lt: "k < length arr" and n: "n = length arr - Suc k" by simp_all
  from lt have cons: "drop k (enumerate 0 arr) = (k, arr ! k) # drop (Suc k) (enumerate 0 arr)"
    by (simp add: Cons_nth_drop_Suc [symmetric] nth_enumerate_eq)
  have "reduce_from f arr k acc =
          comp_bind (f This_undefined acc (arr ! k) (Some (k, arr)))
            (\<lambda>acc'. reduce_from f arr (Suc k) acc')"
    using lt by (subst reduce_from.simps) simp
  also have "\<dots> = comp_bind (f This_undefined acc (arr ! k) (Some (k, arr)))
      (\<lambda>acc'. fold_left (\<lambda>acc' (i, e). f This_undefined acc' e (Some (i, arr)))
         (drop (Suc k) (enumerate 0 arr)) acc')"
    using Suc.hyps(1) [OF n] by simp
  also have "\<dots> = fold_left (\<lambda>acc' (i, e). f This_undefined acc' e (Some (i, arr)))
      (drop k (enumerate 0 arr)) acc"
    by (simp add: cons)
  finally show ?case .
qed

lemma reduce_enumerate:
  "reduce f arr init =
     fold_left (\<lambda>acc (i, e). f This_undefined acc e (Some (i, arr))) (enumerate 0 arr) init"
  by (simp add: reduce_def reduce_from_enumerate)

lemma reduce_Nil: "reduce f [] init = comp_return init"
  by (simp add: reduce_enumerate)

lemma fold_left_enumerate:
  "fold_left (\<lambda>acc (i, e). g acc e) (enumerate n xs) = fold_left g xs"
proof (induction xs arbitrary: n)
  case Nil
  show ?case by (rule ext) simp
next
  case (Cons x xs)
  show ?case by (rule ext) (simp add: Cons.IH)
qed

lemma reduce_fold_left:
  "reduce (\<lambda>receiver s e further. f s e) arr init = fold_left f arr init"
  by (simp add: reduce_enumerate fold_left_enumerate)

lemma forEach_from_fold_left:
  "forEach_from (\<lambda>x k arr l. f l x) arr k l = fold_left f (drop k arr) l"
proof (induction "length arr - k" arbitrary: k l)
  case 0
  then show ?case by (subst forEach_from.simps) simp
next
  case (Suc n)
  then have lt: "k < length arr" and n: "n = length arr - Suc k" by simp_all
  have "forEach_from (\<lambda>x k arr l. f l x) arr k l =
          comp_bind (f l (arr ! k)) (\<lambda>l'. forEach_from (\<lambda>x k arr l. f l x) arr (Suc k) l')"
    using lt by (subst forEach_from.simps) simp
  also have "\<dots> = comp_bind (f l (arr ! k)) (\<lambda>l'. fold_left f (drop (Suc k) arr) l')"
    using Suc.hyps(1) [OF n] by simp
  also have "\<dots> = fold_left f (drop k arr) l"
    using lt by (simp add: Cons_nth_drop_Suc [symmetric])
  finally show ?case .
qed

lemma forEach_fold_left: "forEach (\<lambda>x k arr l. f l x) arr l = fold_left f arr l"
  by (simp add: forEach_def forEach_from_fold_left)

lemma flatMap_from_collect:
  "flatMap_from (\<lambda>x k arr. f x) arr k target =
     comp_bind (collect f (drop k arr)) (\<lambda>yss. comp_return (target @ concat yss))"
proof (induction "length arr - k" arbitrary: k target)
  case 0
  then show ?case by (subst flatMap_from.simps) simp
next
  case (Suc n)
  then have lt: "k < length arr" and n: "n = length arr - Suc k" by simp_all
  have "flatMap_from (\<lambda>x k arr. f x) arr k target =
          comp_bind (f (arr ! k)) (\<lambda>el. flatMap_from (\<lambda>x k arr. f x) arr (Suc k) (target @ el))"
    using lt by (subst flatMap_from.simps) simp
  also have "\<dots> = comp_bind (f (arr ! k)) (\<lambda>el.
      comp_bind (collect f (drop (Suc k) arr)) (\<lambda>yss. comp_return ((target @ el) @ concat yss)))"
    using Suc.hyps(1) [OF n] by simp
  also have "\<dots> = comp_bind (collect f (drop k arr)) (\<lambda>yss. comp_return (target @ concat yss))"
    using lt by (simp add: Cons_nth_drop_Suc [symmetric] comp_bind_assoc)
  finally show ?case .
qed

lemma flatMap_collect:
  "flatMap (\<lambda>x k arr. f x) arr = comp_bind (collect f arr) (\<lambda>yss. comp_return (concat yss))"
  by (simp add: flatMap_def flatMap_from_collect)

lemma fold_left_pure:
  "fold_left (\<lambda>s e. comp_return (ev s e)) xs s = comp_return (foldl ev s xs)"
  by (induction xs arbitrary: s) simp_all

lemma collect_pure: "collect (\<lambda>e. comp_return (rt e)) xs = comp_return (map rt xs)"
  by (induction xs) simp_all

lemma fold_left_append:
  "fold_left f (xs @ ys) = (\<lambda>l. comp_bind (fold_left f xs l) (fold_left f ys))"
proof (induction xs)
  case Nil
  show ?case by simp
next
  case (Cons x xs)
  show ?case by (rule ext) (simp add: Cons.IH comp_bind_assoc)
qed

lemma fold_left_concat:
  "fold_left f (concat xss) = fold_left (\<lambda>l xs. fold_left f xs l) xss"
proof (induction xss)
  case Nil
  show ?case by (rule ext) simp
next
  case (Cons xs xss)
  show ?case by (rule ext) (simp add: fold_left_append Cons.IH)
qed

lemma concat_map_Nil: "concat (map (\<lambda>e. []) xs) = []"
  by (induction xs) simp_all

lemma fold_left_Nil: "fold_left f [] = comp_return"
  by (rule ext) simp

lemma fold_left_mono:
  assumes "\<And>l x w r. f l x w = Some r \<Longrightarrow> g l x w = Some r"
  shows "fold_left f xs l w = Some r \<Longrightarrow> fold_left g xs l w = Some r"
proof (induction xs arbitrary: l w)
  case Nil
  then show ?case by simp
next
  case (Cons x xs)
  from Cons.prems have "comp_bind (f l x) (fold_left f xs) w = Some r" by simp
  then show ?case
  proof (cases rule: comp_bind_SomeE)
    case (throws x1 w1)
    then show ?thesis using assms [of l x w] by (simp add: comp_bind_def)
  next
    case (returns l1 w1)
    from returns(2) have "fold_left g xs l1 w1 = Some r" by (rule Cons.IH)
    then show ?thesis using assms [OF returns(1)] by (simp add: comp_bind_def)
  qed
qed

subsection \<open>The two computations\<close>

lemma computeNewState_unfold:
  "StateComputation_computeNewState this s c =
     comp_bind (decide (decider this) c s) (\<lambda>events. reduce (evolve (decider this)) events s)"
  by (simp add: StateComputation_computeNewState_def)

lemma orchestrating_unfold:
  "StateOrchestratingComputation_computeNewState (Suc fuel) this s c =
     comp_bind (decide (decider this) c s) (\<lambda>events.
     comp_bind (reduce (evolve (decider this)) events s) (\<lambda>newState.
     comp_bind (collect (react (saga this)) events) (\<lambda>css.
       fold_left (StateOrchestratingComputation_computeNewState fuel this) (concat css) newState)))"
  by (simp add: flatMap_collect forEach_fold_left comp_bind_assoc)

declare StateOrchestratingComputation_computeNewState.simps(2) [simp del]

text \<open>
  For a decision unit whose \<open>evolve\<close> reads neither its receiver nor a further
  argument, the plain computation is the left fold of \<open>evolve\<close> over the decided
  events, and the orchestrating computation is that fold followed by the nested loop
  over the follow-up commands of every event.
\<close>

lemma computeNewState_fold_left:
  assumes "\<And>receiver s e further. evolve (decider this) receiver s e further = ev s e"
  shows "StateComputation_computeNewState this s c =
     comp_bind (decide (decider this) c s) (\<lambda>events. fold_left ev events s)"
proof -
  from assms have "evolve (decider this) = (\<lambda>receiver s e further. ev s e)"
    by (simp add: fun_eq_iff)
  then show ?thesis by (simp add: computeNewState_unfold reduce_fold_left)
qed

lemma orchestrating_cascade:
  "StateOrchestratingComputation_computeNewState (Suc fuel) this s c =
     comp_bind (decide (decider this) c s) (\<lambda>events.
     comp_bind (reduce (evolve (decider this)) events s) (\<lambda>newState.
     comp_bind (collect (react (saga this)) events) (\<lambda>followUps.
       cascade (StateOrchestratingComputation_computeNewState fuel this) followUps newState)))"
  unfolding orchestrating_unfold cascade_def fold_left_concat
  by (rule refl)

lemma orchestrating_cascade_fold_left:
  assumes "\<And>receiver s e further. evolve (decider this) receiver s e further = ev s e"
  shows "StateOrchestratingComputation_computeNewState (Suc fuel) this s c =
     comp_bind (decide (decider this) c s) (\<lambda>events.
     comp_bind (fold_left ev events s) (\<lambda>newState.
     comp_bind (collect (react (saga this)) events) (\<lambda>followUps.
       cascade (StateOrchestratingComputation_computeNewState fuel this) followUps newState)))"
proof -
  from assms have "evolve (decider this) = (\<lambda>receiver s e further. ev s e)"
    by (simp add: fun_eq_iff)
  then show ?thesis by (simp add: orchestrating_cascade reduce_fold_left)
qed

text \<open>
  More fuel never changes an outcome: a computation that ends with some fuel ends with
  the same outcome with any larger fuel.
\<close>

lemma orchestrating_fuel_Suc:
  "StateOrchestratingComputation_computeNewState fuel this s c w = Some r
     \<Longrightarrow> StateOrchestratingComputation_computeNewState (Suc fuel) this s c w = Some r"
proof (induction fuel arbitrary: s c w r)
  case 0
  then show ?case by simp
next
  case (Suc fuel)
  have step: "\<And>l x w r. StateOrchestratingComputation_computeNewState fuel this l x w = Some r
      \<Longrightarrow> StateOrchestratingComputation_computeNewState (Suc fuel) this l x w = Some r"
    by (rule Suc.IH)
  from Suc.prems have
    "comp_bind (decide (decider this) c s) (\<lambda>events.
     comp_bind (reduce (evolve (decider this)) events s) (\<lambda>newState.
     comp_bind (collect (react (saga this)) events) (\<lambda>css.
       fold_left (StateOrchestratingComputation_computeNewState fuel this)
         (concat css) newState))) w = Some r"
    by (simp only: orchestrating_unfold)
  then have
    "comp_bind (decide (decider this) c s) (\<lambda>events.
     comp_bind (reduce (evolve (decider this)) events s) (\<lambda>newState.
     comp_bind (collect (react (saga this)) events) (\<lambda>css.
       fold_left (StateOrchestratingComputation_computeNewState (Suc fuel) this)
         (concat css) newState))) w = Some r"
    apply (rule comp_bind_mono [rotated])
    apply (erule comp_bind_mono [rotated])
    apply (erule comp_bind_mono [rotated])
    apply (erule fold_left_mono [rotated])
    apply (erule step)
    done
  then show ?case by (simp only: orchestrating_unfold)
qed

lemma orchestrating_fuel_mono:
  assumes "fuel \<le> fuel'"
    and "StateOrchestratingComputation_computeNewState fuel this s c w = Some r"
  shows "StateOrchestratingComputation_computeNewState fuel' this s c w = Some r"
  using assms
proof (induction rule: dec_induct)
  case base
  then show ?case .
next
  case (step n)
  then show ?case by (intro orchestrating_fuel_Suc)
qed

subsection \<open>The four handle methods after the fetch\<close>

lemma StateStoredAggregate_handle_fetched:
  assumes "fetchState (stateRepository this) c w = Some (Inr cur, w1)"
  shows "StateStoredAggregate_handle ToBoolean this c w =
     comp_bind (StateComputation_computeNewState this
                  (case cur of None \<Rightarrow> initialState (decider this)
                   | Some s \<Rightarrow> if ToBoolean s then s else initialState (decider this)) c)
       (save (stateRepository this)) w1"
  using assms by (simp add: StateStoredAggregate_handle_def comp_bind_def)

lemma StateStoredLockingAggregate_handle_fetched:
  assumes "fetchState_locking (stateRepository_L this) c w = Some (Inr (cur, version), w1)"
  shows "StateStoredLockingAggregate_handle ToBoolean this c w =
     comp_bind (StateComputation_computeNewState this
                  (case cur of None \<Rightarrow> initialState (decider this)
                   | Some s \<Rightarrow> if ToBoolean s then s else initialState (decider this)) c)
       (\<lambda>newState. save_locking (stateRepository_L this) newState version) w1"
  using assms by (simp add: StateStoredLockingAggregate_handle_def comp_bind_def)

lemma StateStoredOrchestratingAggregate_handle_fetched:
  assumes "fetchState (stateRepository_O this) c w = Some (Inr cur, w1)"
  shows "StateStoredOrchestratingAggregate_handle fuel ToBoolean this c w =
     comp_bind (StateOrchestratingComputation_computeNewState fuel this
                  (case cur of None \<Rightarrow> initialState (decider this)
                   | Some s \<Rightarrow> if ToBoolean s then s else initialState (decider this)) c)
       (save (stateRepository_O this)) w1"
  using assms by (simp add: StateStoredOrchestratingAggregate_handle_def comp_bind_def)

lemma StateStoredOrchestratingLockingAggregate_handle_fetched:
  assumes "fetchState_locking (stateRepository_OL this) c w = Some (Inr (cur, version), w1)"
  shows "StateStoredOrchestratingLockingAggregate_handle fuel ToBoolean this c w =
     comp_bind (StateOrchestratingComputation_computeNewState fuel this
                  (case cur of None \<Rightarrow> initialState (decider this)
                   | Some s \<Rightarrow> if ToBoolean s then s else initialState (decider this)) c)
       (\<lambda>newState. save_locking (stateRepository_OL this) newState version) w1"
  using assms by (simp add: StateStoredOrchestratingLockingAggregate_handle_def comp_bind_def)

subsection \<open>The log of the calls\<close>



























subsection \<open>Rules for running the examples\<close>

lemmas run_simps =
  comp_bind_def comp_return_def comp_throw_def pure_decider_def pure_saga_def
  spy_def thrown_def spy_decider_def spy_saga_def spy_repository_def
  spy_locking_repository_def computeNewState_unfold orchestrating_unfold reduce_fold_left

lemmas aggregate_simps =
  new_StateStoredAggregate_def new_StateStoredLockingAggregate_def
  new_StateStoredOrchestratingAggregate_def new_StateStoredOrchestratingLockingAggregate_def
  StateStoredAggregate_handle_def StateStoredLockingAggregate_handle_def
  StateStoredOrchestratingAggregate_handle_def StateStoredOrchestratingLockingAggregate_handle_def
  in_memory_repository_def in_memory_locking_repository_def

subsection \<open>The round trip through the in-memory repository\<close>

text \<open>
  What holds of the starting state: \<^verbatim>\<open>handle\<close> starts from the decider's initial
  state when nothing is stored, and from the stored state when that state converts to
  true. For a pure decider and the in-memory repository, the first \<^verbatim>\<open>handle\<close> on
  the empty store stores and returns the fold from the initial state, and a second
  \<^verbatim>\<open>handle\<close> starts from that stored state provided it converts to true.
\<close>

lemma StateStoredAggregate_handle_absent:
  assumes "fetchState (stateRepository this) c w = Some (Inr None, w1)"
  shows "StateStoredAggregate_handle ToBoolean this c w =
     comp_bind (StateComputation_computeNewState this (initialState (decider this)) c)
       (save (stateRepository this)) w1"
  using StateStoredAggregate_handle_fetched [OF assms] by simp

lemma StateStoredAggregate_handle_truthy:
  assumes "fetchState (stateRepository this) c w = Some (Inr (Some s), w1)" and "ToBoolean s"
  shows "StateStoredAggregate_handle ToBoolean this c w =
     comp_bind (StateComputation_computeNewState this s c) (save (stateRepository this)) w1"
  using StateStoredAggregate_handle_fetched [OF assms(1)] assms(2) by simp

lemma fold_left_pure_run:
  "fold_left (\<lambda>s e w. Some (Inr (ev s e), w)) xs s w = Some (Inr (foldl ev s xs), w)"
proof -
  have "fold_left (\<lambda>s e. comp_return (ev s e)) xs s w = comp_return (foldl ev s xs) w"
    by (simp only: fold_left_pure)
  then show ?thesis by (simp only: comp_return_def)
qed

lemma in_memory_first_handle:
  "StateStoredAggregate_handle ToBoolean
     (new_StateStoredAggregate (pure_decider dec ev init) in_memory_repository) c None
   = Some (Inr (foldl ev init (dec c init)), Some (foldl ev init (dec c init)))"
  by (simp add: aggregate_simps computeNewState_unfold pure_decider_def reduce_fold_left
        fold_left_pure_run comp_bind_def comp_return_def)

lemma in_memory_second_handle:
  assumes "ToBoolean s"
  shows "StateStoredAggregate_handle ToBoolean
     (new_StateStoredAggregate (pure_decider dec ev init) in_memory_repository) c (Some s)
   = Some (Inr (foldl ev s (dec c s)), Some (foldl ev s (dec c s)))"
  using assms
  by (simp add: aggregate_simps computeNewState_unfold pure_decider_def reduce_fold_left
        fold_left_pure_run comp_bind_def comp_return_def)

section \<open>The claims\<close>

subsection \<open>C1: the plain computation and the fold of evolve\<close>

text \<open>
  C1. The claim: for every decision unit, state \<open>s\<close> and command \<open>c\<close>,
  \<^verbatim>\<open>StateComputation.computeNewState(s, c)\<close> is the left-to-right fold of \<open>evolve\<close>
  over the events \<open>decide(c, s)\<close>, starting from \<open>s\<close>. The code hands the function
  value \<^verbatim>\<open>this.decider.evolve\<close> to \<^verbatim>\<open>reduce\<close> (line 112), which calls it without a
  receiver and with the index and the array as further arguments, where line 106 calls
  \<^verbatim>\<open>this.decider.evolve(s, e)\<close> as a method. So the claim holds for a decision unit
  whose \<open>evolve\<close> reads neither (\<open>computeNewState_fold_left\<close>), and fails otherwise.
  Two decision units of the right type on which it fails:
  \<^item> an object of the file's own class used as the decision unit of another
    computation: \<open>decide(5, 0)\<close> is \<open>[5]\<close>, the fold of \<^verbatim>\<open>evolve(s, e)\<close> over it from
    \<open>0\<close> is \<open>5\<close>, and \<^verbatim>\<open>computeNewState(0, 5)\<close> throws the \<^verbatim>\<open>TypeError\<close>;
  \<^item> \<^verbatim>\<open>evolve(s, e, k = 0)\<close> adding \<open>k\<close>: \<open>decide(10, 0)\<close> is \<open>[10, 10, 10]\<close>, the fold
    of \<^verbatim>\<open>evolve(s, e)\<close> over it from \<open>0\<close> is \<open>30\<close>, and \<^verbatim>\<open>computeNewState(0, 10)\<close>
    returns \<open>33\<close>.
\<close>

theorem computeNewState_calls_evolve_detached:
  "decide (decider outer_computation) 5 0 () = Some (Inr [5], ())
   \<and> fold_left (\<lambda>s e. evolve (decider outer_computation) This_object s e None) [5] 0 ()
       = Some (Inr 5, ())
   \<and> StateComputation_computeNewState outer_computation 0 5 () = Some (Inl TypeError, ())
   \<and> decide indexed_adder 10 0 () = Some (Inr [10, 10, 10] :: failure + int list, ())
   \<and> fold_left (\<lambda>s e. evolve indexed_adder This_object s e None) [10, 10, 10] 0 ()
       = Some (Inr 30 :: failure + int, ())
   \<and> StateComputation_computeNewState
        \<lparr>decider = indexed_adder, this_initialState = 0\<rparr> 0 10 ()
       = Some (Inr 33 :: failure + int, ())"
  by (simp add: outer_computation_def inner_computation_def StateComputation_as_IDecider_def
        StateComputation_decide_def StateComputation_evolve_def adder_def indexed_adder_def
        pure_decider_def computeNewState_unfold reduce_enumerate
        comp_bind_def comp_return_def comp_throw_def)

subsection \<open>C2: the orchestrating computation, its fold and its cascade\<close>

text \<open>
  C2. The claim: \<^verbatim>\<open>StateOrchestratingComputation.computeNewState(s, c)\<close> first folds
  the events \<open>decide(c, s)\<close> through \<open>evolve\<close>, then calls itself for every event and
  every follow-up command of the event, in order, on the accumulated state. The
  cascade is as the claim says (\<open>orchestrating_cascade\<close>: the calls of \<open>react\<close> on
  all events come first, then the nested loop). The first stage is the
  \<^verbatim>\<open>events.reduce(this.decider.evolve, state)\<close> of the plain computation (line 140),
  with the same detached call of \<open>evolve\<close> as in C1, so it is the fold of \<open>evolve\<close>
  only for an \<open>evolve\<close> that reads neither its receiver nor a further argument
  (\<open>orchestrating_cascade_fold_left\<close>). With an object of the file's own class as the
  decision unit and a saga without reactions: \<open>decide(5, 0)\<close> is \<open>[5]\<close>, the fold of
  \<^verbatim>\<open>evolve(s, e)\<close> from \<open>0\<close> is \<open>5\<close> and no command follows, so the claim gives \<open>5\<close>;
  \<^verbatim>\<open>computeNewState(0, 5)\<close> throws the \<^verbatim>\<open>TypeError\<close>, with any fuel.
\<close>

theorem orchestrating_computeNewState_calls_evolve_detached:
  "decide (decider outer_orchestrating) 5 0 () = Some (Inr [5], ())
   \<and> fold_left (\<lambda>s e. evolve (decider outer_orchestrating) This_object s e None) [5] 0 ()
       = Some (Inr 5, ())
   \<and> collect (react (saga outer_orchestrating)) [5] ()
       = Some (Inr [[]] :: failure + int list list, ())
   \<and> StateOrchestratingComputation_computeNewState (Suc fuel) outer_orchestrating 0 5 ()
       = Some (Inl TypeError, ())"
  by (simp add: outer_orchestrating_def inner_computation_def StateComputation_as_IDecider_def
        StateComputation_decide_def StateComputation_evolve_def adder_def
        pure_decider_def pure_saga_def orchestrating_unfold reduce_enumerate
        comp_bind_def comp_return_def comp_throw_def)

subsection \<open>C3: a stored state that converts to false is not the starting point\<close>

text \<open>
  C3. The claim: \<^verbatim>\<open>handle\<close> uses the decider's initial state only if the fetched
  state is absent and otherwise the fetched state; after a first \<^verbatim>\<open>handle\<close> has
  stored a state on an empty store, a second one starts from that stored state. The
  code tests the fetched state for truthiness, so this fails for a stored state that
  converts to false. With states that are numbers, the initial state 10 and the
  decision unit of the concrete scenario: \<^verbatim>\<open>handle(-10)\<close> on the empty store stores
  and returns 0; the following \<^verbatim>\<open>handle(3)\<close> fetches 0 and returns 13, computed from
  the initial state 10, where the computation from the stored state 0 gives 3.
\<close>

theorem falsy_stored_state_restarts_from_initialState:
  "StateStoredAggregate_handle ToBoolean_number
     (new_StateStoredAggregate (adder 10) in_memory_repository) (- 10) None
     = Some (Inr 0 :: failure + int, Some 0)
   \<and> StateStoredAggregate_handle ToBoolean_number
     (new_StateStoredAggregate (adder 10) in_memory_repository) 3 (Some 0)
     = Some (Inr 13 :: failure + int, Some 13)
   \<and> StateComputation_computeNewState
     (new_StateStoredAggregate (adder 10) in_memory_repository) 0 3 (Some 0)
     = Some (Inr 3 :: failure + int, Some 0)"
  by (simp add: aggregate_simps run_simps adder_def ToBoolean_number_def)

subsection \<open>C4: absence is decided by truthiness\<close>

text \<open>
  C4. In each of the four aggregates, when \<^verbatim>\<open>fetchState\<close> yields a state that is
  present but converts to false (the number 0, the empty string, \<^verbatim>\<open>false\<close>),
  \<^verbatim>\<open>handle\<close> computes the new state from the decider's initial state, not from the
  fetched state, and saves that.
\<close>

theorem falsy_state_is_treated_as_absent:
  "(fetchState (stateRepository this) c w = Some (Inr (Some s), w1) \<longrightarrow> \<not> ToBoolean s \<longrightarrow>
      StateStoredAggregate_handle ToBoolean this c w =
        comp_bind (StateComputation_computeNewState this (initialState (decider this)) c)
          (save (stateRepository this)) w1)
   \<and> (fetchState_locking (stateRepository_L this_L) c w = Some (Inr (Some s, version), w1) \<longrightarrow>
      \<not> ToBoolean s \<longrightarrow>
      StateStoredLockingAggregate_handle ToBoolean this_L c w =
        comp_bind (StateComputation_computeNewState this_L (initialState (decider this_L)) c)
          (\<lambda>newState. save_locking (stateRepository_L this_L) newState version) w1)
   \<and> (fetchState (stateRepository_O this_O) c w = Some (Inr (Some s), w1) \<longrightarrow> \<not> ToBoolean s \<longrightarrow>
      StateStoredOrchestratingAggregate_handle fuel ToBoolean this_O c w =
        comp_bind (StateOrchestratingComputation_computeNewState fuel this_O
                     (initialState (decider this_O)) c)
          (save (stateRepository_O this_O)) w1)
   \<and> (fetchState_locking (stateRepository_OL this_OL) c w = Some (Inr (Some s, version), w1) \<longrightarrow>
      \<not> ToBoolean s \<longrightarrow>
      StateStoredOrchestratingLockingAggregate_handle fuel ToBoolean this_OL c w =
        comp_bind (StateOrchestratingComputation_computeNewState fuel this_OL
                     (initialState (decider this_OL)) c)
          (\<lambda>newState. save_locking (stateRepository_OL this_OL) newState version) w1)"
  by (simp add: StateStoredAggregate_handle_fetched StateStoredLockingAggregate_handle_fetched
        StateStoredOrchestratingAggregate_handle_fetched
        StateStoredOrchestratingLockingAggregate_handle_fetched)

theorem falsy_state_is_treated_as_absent_witness:
  "\<not> ToBoolean_number 0 \<and> \<not> ToBoolean_string [] \<and> \<not> ToBoolean_boolean False
   \<and> StateStoredAggregate_handle ToBoolean_number
        (new_StateStoredAggregate (adder 10) in_memory_repository) 3 (Some 0)
       = Some (Inr 13 :: failure + int, Some 13)
   \<and> StateStoredLockingAggregate_handle ToBoolean_string
        (new_StateStoredLockingAggregate (pure_decider (\<lambda>c s. [c]) (\<lambda>s e. s @ e) ''ab'')
           in_memory_locking_repository) ''c'' (Some ([], 4))
       = Some (Inr (''abc'', 5), Some (''abc'', 5))
   \<and> StateStoredOrchestratingAggregate_handle (Suc 0) ToBoolean_boolean
        (new_StateStoredOrchestratingAggregate (pure_decider (\<lambda>c s. [c]) (\<lambda>s e. s \<noteq> e) True)
           in_memory_repository (pure_saga (\<lambda>e. []))) True (Some False)
       = Some (Inr False :: failure + bool, Some False)
   \<and> StateStoredOrchestratingLockingAggregate_handle (Suc 0) ToBoolean_number
        (new_StateStoredOrchestratingLockingAggregate (adder 10) in_memory_locking_repository
           (pure_saga (\<lambda>e. []))) 3 (Some (0, 2))
       = Some (Inr (13, 3), Some (13, 3))"
proof -
  let ?A = "new_StateStoredAggregate (adder 10) in_memory_repository
    :: (int, int, int, failure, int option) StateStoredAggregate"
  let ?L = "new_StateStoredLockingAggregate (pure_decider (\<lambda>c s. [c]) (\<lambda>s e. s @ e) ''ab'')
    in_memory_locking_repository
    :: (string, string, string, nat, failure, (string \<times> nat) option) StateStoredLockingAggregate"
  let ?O = "new_StateStoredOrchestratingAggregate
    (pure_decider (\<lambda>c s. [c]) (\<lambda>s e. s \<noteq> e) True) in_memory_repository (pure_saga (\<lambda>e. []))
    :: (bool, bool, bool, failure, bool option) StateStoredOrchestratingAggregate"
  let ?OL = "new_StateStoredOrchestratingLockingAggregate (adder 10)
    in_memory_locking_repository (pure_saga (\<lambda>e. []))
    :: (int, int, int, nat, failure, (int \<times> nat) option) StateStoredOrchestratingLockingAggregate"
  have n: "\<not> ToBoolean_number 0" and s: "\<not> ToBoolean_string []" and b: "\<not> ToBoolean_boolean False"
    by (simp_all add: ToBoolean_number_def ToBoolean_string_def ToBoolean_boolean_def)
  have fA: "fetchState (stateRepository ?A) 3 (Some 0) = Some (Inr (Some 0), Some 0)"
    by (simp add: aggregate_simps)
  have fL: "fetchState_locking (stateRepository_L ?L) ''c'' (Some ([], 4))
      = Some (Inr (Some [], Some 4), Some ([], 4))"
    by (simp add: aggregate_simps)
  have fO: "fetchState (stateRepository_O ?O) True (Some False) = Some (Inr (Some False), Some False)"
    by (simp add: aggregate_simps)
  have fOL: "fetchState_locking (stateRepository_OL ?OL) 3 (Some (0, 2))
      = Some (Inr (Some 0, Some 2), Some (0, 2))"
    by (simp add: aggregate_simps)
  note absent = falsy_state_is_treated_as_absent
  have "StateStoredAggregate_handle ToBoolean_number ?A 3 (Some 0) = Some (Inr 13, Some 13)"
    unfolding absent [where ToBoolean = ToBoolean_number, THEN conjunct1, rule_format, OF fA n]
    by (simp add: aggregate_simps run_simps adder_def)
  moreover
  have "StateStoredLockingAggregate_handle ToBoolean_string ?L ''c'' (Some ([], 4))
      = Some (Inr (''abc'', 5), Some (''abc'', 5))"
    unfolding absent [where ToBoolean = ToBoolean_string, THEN conjunct2, THEN conjunct1,
        rule_format, OF fL s]
    by (simp add: aggregate_simps run_simps)
  moreover
  have "StateStoredOrchestratingAggregate_handle (Suc 0) ToBoolean_boolean ?O True (Some False)
      = Some (Inr False, Some False)"
    unfolding absent [where ToBoolean = ToBoolean_boolean, THEN conjunct2, THEN conjunct2,
        THEN conjunct1, rule_format, OF fO b]
    by (simp add: aggregate_simps run_simps)
  moreover
  have "StateStoredOrchestratingLockingAggregate_handle (Suc 0) ToBoolean_number ?OL 3 (Some (0, 2))
      = Some (Inr (13, 3), Some (13, 3))"
    unfolding absent [where ToBoolean = ToBoolean_number, THEN conjunct2, THEN conjunct2,
        THEN conjunct2, rule_format, OF fOL n]
    by (simp add: aggregate_simps run_simps adder_def)
  ultimately show ?thesis using n s b by simp
qed

subsection \<open>C5: the locking aggregates pass the fetched version to save\<close>

text \<open>
  C5. When \<^verbatim>\<open>fetchState\<close> has yielded the pair of a state (or \<^verbatim>\<open>null\<close>) and a
  version (or \<^verbatim>\<open>null\<close>) and the computation has returned the new state, the outcome
  of \<^verbatim>\<open>handle\<close> of a locking aggregate is the outcome of the repository's
  \<^verbatim>\<open>save\<close> called with the new state and that very version, for any repository:
  the version is neither examined nor changed (its type is a parameter on which the
  model has no operation), and what \<^verbatim>\<open>save\<close> returns or throws is what
  \<^verbatim>\<open>handle\<close> returns or throws.
\<close>

theorem locking_handle_passes_fetched_version:
  "(fetchState_locking (stateRepository_L this) c w = Some (Inr (currentState, version), w1) \<longrightarrow>
    StateComputation_computeNewState this
      (case currentState of None \<Rightarrow> initialState (decider this)
       | Some s \<Rightarrow> if ToBoolean s then s else initialState (decider this)) c w1
      = Some (Inr newState, w2) \<longrightarrow>
    StateStoredLockingAggregate_handle ToBoolean this c w
      = save_locking (stateRepository_L this) newState version w2)
   \<and> (fetchState_locking (stateRepository_OL this_OL) c w
        = Some (Inr (currentState, version), w1) \<longrightarrow>
    StateOrchestratingComputation_computeNewState fuel this_OL
      (case currentState of None \<Rightarrow> initialState (decider this_OL)
       | Some s \<Rightarrow> if ToBoolean s then s else initialState (decider this_OL)) c w1
      = Some (Inr newState, w2) \<longrightarrow>
    StateStoredOrchestratingLockingAggregate_handle fuel ToBoolean this_OL c w
      = save_locking (stateRepository_OL this_OL) newState version w2)"
  by (simp add: StateStoredLockingAggregate_handle_fetched
        StateStoredOrchestratingLockingAggregate_handle_fetched comp_bind_def)

theorem locking_handle_passes_fetched_version_witness:
  "StateStoredLockingAggregate_handle ToBoolean_number
     (new_StateStoredLockingAggregate (adder 0)
        (spy_locking_repository in_memory_locking_repository)) 5 (None, [])
     = Some (Inr (5, 0), (Some (5, 0),
         [(FetchState 5, None), (SaveVersion 5 None, None)]
           :: (int, int, int, nat, failure) trace))
   \<and> StateStoredOrchestratingLockingAggregate_handle (Suc 0) ToBoolean_number
     (new_StateStoredOrchestratingLockingAggregate (adder 0)
        (spy_locking_repository in_memory_locking_repository) (pure_saga (\<lambda>e. [])))
        3 (Some (5, 0), [])
     = Some (Inr (8, 1), (Some (8, 1),
         [(FetchState 3, None), (SaveVersion 8 (Some 0), None)]
           :: (int, int, int, nat, failure) trace))"
proof -
  let ?L = "new_StateStoredLockingAggregate (adder 0)
      (spy_locking_repository in_memory_locking_repository)
    :: (int, int, int, nat, failure, (int \<times> nat) option \<times> (int, int, int, nat, failure) trace)
         StateStoredLockingAggregate"
  let ?OL = "new_StateStoredOrchestratingLockingAggregate (adder 0)
      (spy_locking_repository in_memory_locking_repository) (pure_saga (\<lambda>e. []))
    :: (int, int, int, nat, failure, (int \<times> nat) option \<times> (int, int, int, nat, failure) trace)
         StateStoredOrchestratingLockingAggregate"
  note passes = locking_handle_passes_fetched_version [where ToBoolean = ToBoolean_number]
  have fL: "fetchState_locking (stateRepository_L ?L) 5 (None, [])
      = Some (Inr (None, None), (None, [(FetchState 5, None)]))"
    by (simp add: aggregate_simps run_simps)
  have cL: "StateComputation_computeNewState ?L
      (case None of None \<Rightarrow> initialState (decider ?L)
       | Some s \<Rightarrow> if ToBoolean_number s then s else initialState (decider ?L)) 5
      (None, [(FetchState 5, None)]) = Some (Inr 5, (None, [(FetchState 5, None)]))"
    by (simp add: aggregate_simps run_simps adder_def)
  have fOL: "fetchState_locking (stateRepository_OL ?OL) 3 (Some (5, 0), [])
      = Some (Inr (Some 5, Some 0), (Some (5, 0), [(FetchState 3, None)]))"
    by (simp add: aggregate_simps run_simps)
  have cOL: "StateOrchestratingComputation_computeNewState (Suc 0) ?OL
      (case Some 5 of None \<Rightarrow> initialState (decider ?OL)
       | Some s \<Rightarrow> if ToBoolean_number s then s else initialState (decider ?OL)) 3
      (Some (5, 0), [(FetchState 3, None)]) = Some (Inr 8, (Some (5, 0), [(FetchState 3, None)]))"
    by (simp add: aggregate_simps run_simps adder_def ToBoolean_number_def)
  have "StateStoredLockingAggregate_handle ToBoolean_number ?L 5 (None, [])
      = Some (Inr (5, 0), (Some (5, 0), [(FetchState 5, None), (SaveVersion 5 None, None)]))"
    unfolding passes [THEN conjunct1, rule_format, OF fL cL]
    by (simp add: aggregate_simps run_simps)
  moreover
  have "StateStoredOrchestratingLockingAggregate_handle (Suc 0) ToBoolean_number ?OL 3
        (Some (5, 0), [])
      = Some (Inr (8, 1), (Some (8, 1), [(FetchState 3, None), (SaveVersion 8 (Some 0), None)]))"
    unfolding passes [THEN conjunct2, rule_format, OF fOL cOL]
    by (simp add: aggregate_simps run_simps)
  ultimately show ?thesis by simp
qed

subsection \<open>C6: failures surface unchanged, and save is the last and only write\<close>



subsection \<open>C7: without reactions the orchestrating computation is the plain one\<close>

text \<open>
  C7. For a routing unit whose \<open>react\<close> returns the empty sequence for every event,
  the orchestrating \<^verbatim>\<open>computeNewState\<close> (with fuel for its one call) is the plain
  \<^verbatim>\<open>computeNewState\<close>, for every state and command.
\<close>

theorem orchestrating_without_reactions:
  assumes "\<forall>e. react (saga this) e = comp_return []"
  shows "StateOrchestratingComputation_computeNewState (Suc fuel) this s c =
         StateComputation_computeNewState this s c"
proof -
  from assms have "react (saga this) = (\<lambda>e. comp_return [])" by (simp add: fun_eq_iff)
  then have "collect (react (saga this)) events = comp_return (map (\<lambda>e. []) events)"
    for events by (simp add: collect_pure)
  then show ?thesis
    by (simp add: orchestrating_unfold computeNewState_unfold concat_map_Nil fold_left_Nil)
qed

theorem orchestrating_without_reactions_witness:
  "(\<forall>e. react (saga \<lparr>decider = adder 0, this_initialState = 0,
                        saga = pure_saga (\<lambda>e. [] :: int list)\<rparr>) e = comp_return [])
   \<and> StateOrchestratingComputation_computeNewState (Suc 0)
        \<lparr>decider = adder 0, this_initialState = 0, saga = pure_saga (\<lambda>e. [] :: int list)\<rparr> 0 5
     = StateComputation_computeNewState
        (\<lparr>decider = adder 0, this_initialState = 0, saga = pure_saga (\<lambda>e. [] :: int list)\<rparr>
           :: (int, int, int, failure, unit) StateOrchestratingComputation) 0 5
   \<and> StateComputation_computeNewState
        (\<lparr>decider = adder 0, this_initialState = 0, saga = pure_saga (\<lambda>e. [] :: int list)\<rparr>
           :: (int, int, int, failure, unit) StateOrchestratingComputation) 0 5 ()
     = Some (Inr 5, ())"
proof -
  let ?this = "\<lparr>decider = adder 0, this_initialState = 0, saga = pure_saga (\<lambda>e. [] :: int list)\<rparr>
      :: (int, int, int, failure, unit) StateOrchestratingComputation"
  have h: "\<forall>e. react (saga ?this) e = comp_return []" by (simp add: pure_saga_def)
  from orchestrating_without_reactions [OF h, of 0 0 5] h
  show ?thesis by (simp add: run_simps adder_def)
qed

subsection \<open>C8: a command without events leaves the state as it is\<close>

text \<open>
  C8. When \<open>decide(c, s)\<close> returns the empty sequence, \<^verbatim>\<open>computeNewState(s, c)\<close>
  returns \<open>s\<close>, and \<open>evolve\<close> is not called: the outcome is the same whatever
  function stands in the place of \<open>evolve\<close> (one that throws, or one that does not
  return), and the log of the recorded decider holds the one call of \<open>decide\<close>. The
  same holds for the orchestrating computation, which calls neither \<open>evolve\<close> nor
  \<open>react\<close>.
\<close>

theorem no_events_no_change:
  assumes "decide (decider this) c s w = Some (Inr [], w')"
  shows "StateComputation_computeNewState
           (this\<lparr>decider := (decider this)\<lparr>evolve := ev\<rparr>\<rparr>) s c w = Some (Inr s, w')
    \<and> StateComputation_computeNewState
           \<lparr>decider = spy_decider (decider this), this_initialState = i\<rparr> s c (w, l)
         = Some (Inr s, (w', l @ [(Decide c s, None)]))
    \<and> StateOrchestratingComputation_computeNewState (Suc fuel)
           \<lparr>decider = (decider this)\<lparr>evolve := ev\<rparr>, this_initialState = i, saga = g\<rparr> s c w
         = Some (Inr s, w')"
  using assms
  by (simp add: computeNewState_unfold orchestrating_unfold reduce_Nil comp_bind_def
        comp_return_def spy_decider_def spy_def thrown_def)

theorem no_events_no_change_witness:
  "decide (decider \<lparr>decider = counter_decider, this_initialState = 0\<rparr>) ''noop'' 4 ()
     = Some (Inr [] :: failure + counter_event list, ())
   \<and> StateComputation_computeNewState
        \<lparr>decider = counter_decider\<lparr>evolve := \<lambda>receiver s e further. comp_throw DomainFailure\<rparr>,
         this_initialState = 0\<rparr> 4 ''noop'' ()
     = Some (Inr 4, ())
   \<and> StateComputation_computeNewState
        \<lparr>decider = spy_decider counter_decider, this_initialState = 0\<rparr> 4 ''noop'' ((), [])
     = Some (Inr 4 :: failure + int,
             ((), [(Decide ''noop'' 4, None)] :: (string, int, counter_event, unit, failure) trace))
   \<and> StateOrchestratingComputation_computeNewState (Suc 0)
        \<lparr>decider = counter_decider\<lparr>evolve := \<lambda>receiver s e further. comp_throw DomainFailure\<rparr>,
         this_initialState = 0, saga = \<lparr>react = \<lambda>e. comp_throw DomainFailure\<rparr>\<rparr> 4 ''noop'' ()
     = Some (Inr 4, ())"
proof -
  let ?this = "\<lparr>decider = counter_decider, this_initialState = 0\<rparr>
    :: (string, int, counter_event, failure, unit) StateComputation"
  have h: "decide (decider ?this) ''noop'' 4 () = Some (Inr [], ())"
    by (simp add: counter_decider_def counter_decide_def pure_decider_def comp_return_def)
  from no_events_no_change [OF h, of "\<lambda>receiver s e further. comp_throw DomainFailure" 0
      "[] :: (string, int, counter_event, unit, failure) trace" 0
      "\<lparr>react = \<lambda>e. comp_throw DomainFailure\<rparr>"] h
  show ?thesis by simp
qed

subsection \<open>C9: the counter cascades to 3\<close>

text \<open>
  C9. For the counter (\<open>decide\<close> maps \<^verbatim>\<open>"inc"\<close> to the one event \<open>Incremented\<close>,
  \<open>evolve\<close> adds 1, \<open>react\<close> maps \<open>Incremented\<close> to \<^verbatim>\<open>["inc"]\<close> when the
  resulting count is less than 3 and to the empty sequence otherwise), the
  orchestrating \<^verbatim>\<open>computeNewState(0, "inc")\<close> returns 3 with any fuel of at least 3,
  and with less fuel it does not end: the first call and two nested ones. The log of
  the recorded collaborators shows the three rounds of \<open>decide\<close>, \<open>evolve\<close> and
  \<open>react\<close>, the third \<open>react\<close> returning no command.
\<close>

theorem counter_cascade:
  assumes "3 \<le> fuel"
  shows "StateOrchestratingComputation_computeNewState fuel counter 0 ''inc'' w = Some (Inr 3, w)
    \<and> StateOrchestratingComputation_computeNewState 2 counter 0 ''inc'' w = None
    \<and> StateOrchestratingComputation_computeNewState fuel counter_spied 0 ''inc'' (w, [])
        = Some (Inr 3, (w,
            [(Decide ''inc'' 0, None), (Evolve 0 (Incremented 1), None),
             (React (Incremented 1), None),
             (Decide ''inc'' 1, None), (Evolve 1 (Incremented 2), None),
             (React (Incremented 2), None),
             (Decide ''inc'' 2, None), (Evolve 2 (Incremented 3), None),
             (React (Incremented 3), None)]))"
proof -
  from assms obtain k where fuel: "fuel = Suc (Suc (Suc k))"
    by (metis Suc_le_D numeral_3_eq_3 Suc_le_mono)
  show ?thesis
    unfolding fuel numeral_2_eq_2
    by (simp add: run_simps counter_def counter_spied_def counter_decider_def counter_saga_def
          counter_decide_def)
qed

theorem counter_cascade_witness:
  "(3 :: nat) \<le> 3
   \<and> StateOrchestratingComputation_computeNewState 3
        (counter :: (string, int, counter_event, failure, unit) StateOrchestratingComputation)
        0 ''inc'' () = Some (Inr 3, ())
   \<and> StateOrchestratingComputation_computeNewState 2
        (counter :: (string, int, counter_event, failure, unit) StateOrchestratingComputation)
        0 ''inc'' () = None"
proof -
  have h: "(3 :: nat) \<le> 3" by simp
  show ?thesis
    by (intro conjI)
      (rule h counter_cascade [OF h, THEN conjunct1]
         counter_cascade [OF h, THEN conjunct2, THEN conjunct1])+
qed

subsection \<open>C10: the aggregates delegate to their decider and saga\<close>

text \<open>
  C10. An aggregate built by any of the four constructors answers \<open>decide\<close> and
  \<open>evolve\<close> with the decider's \<open>decide\<close> and \<open>evolve\<close> (the method call
  \<^verbatim>\<open>this.decider.evolve(s, e)\<close>, with the decider as receiver), and its field
  \<open>initialState\<close> holds the decider's initial state, copied by the constructor; an
  orchestrating aggregate answers \<open>react\<close> with the saga's \<open>react\<close>.
\<close>

theorem aggregates_delegate:
  "StateComputation_decide (new_StateStoredAggregate d r) c s = decide d c s
   \<and> StateComputation_evolve (new_StateStoredAggregate d r) s e =
       evolve d This_object s e None
   \<and> this_initialState (new_StateStoredAggregate d r) = initialState d
   \<and> StateComputation_decide (new_StateStoredLockingAggregate d rl) c s = decide d c s
   \<and> StateComputation_evolve (new_StateStoredLockingAggregate d rl) s e =
       evolve d This_object s e None
   \<and> this_initialState (new_StateStoredLockingAggregate d rl) = initialState d
   \<and> StateComputation_decide (new_StateStoredOrchestratingAggregate d r g) c s = decide d c s
   \<and> StateComputation_evolve (new_StateStoredOrchestratingAggregate d r g) s e =
       evolve d This_object s e None
   \<and> this_initialState (new_StateStoredOrchestratingAggregate d r g) = initialState d
   \<and> StateOrchestratingComputation_react (new_StateStoredOrchestratingAggregate d r g) e
       = react g e
   \<and> StateComputation_decide (new_StateStoredOrchestratingLockingAggregate d rl g) c s
       = decide d c s
   \<and> StateComputation_evolve (new_StateStoredOrchestratingLockingAggregate d rl g) s e
       = evolve d This_object s e None
   \<and> this_initialState (new_StateStoredOrchestratingLockingAggregate d rl g) = initialState d
   \<and> StateOrchestratingComputation_react (new_StateStoredOrchestratingLockingAggregate d rl g) e
       = react g e"
  by (simp add: StateComputation_decide_def StateComputation_evolve_def
        StateOrchestratingComputation_react_def new_StateStoredAggregate_def
        new_StateStoredLockingAggregate_def new_StateStoredOrchestratingAggregate_def
        new_StateStoredOrchestratingLockingAggregate_def)

end
